theory Spec2Isabelle
  imports Complex_Main
begin

section \<open>SPE feature extraction of \<open>PMTGain::analyze\<close> (PMTGainAna\_module.cc)\<close>

text \<open>
  The analyser holds every sample value and every pulse time in a C++ \<open>double\<close>.
  Here a \<open>double\<close> is a \<open>real\<close>: the comparisons of the pulse detector are exact on
  doubles, and the pulse times are sample indices (small integers), which a double holds
  exactly. C++ \<open>int\<close> variables are \<open>int\<close>; none of them can leave the 32-bit range, since
  each is bounded by the number of samples of one waveform.
\<close>

datatype error =
    UndefinedRead  \<comment> \<open>\<open>operator[]\<close> with an index outside the array\<close>
  | OutOfRange  \<comment> \<open>\<open>std::out_of_range\<close> thrown by \<open>at()\<close>\<close>
  | NotFinite  \<comment> \<open>a quotient with divisor zero (NaN or infinite as a double)\<close>

text \<open>The configuration parameters (constructor, lines 140--158) that the modelled code reads.\<close>

record config =
  fLowbin :: int
  fHibin :: int
  fNstdev :: int
  fSpe_region_start :: int
  fNbmax_factor :: real
  fNbmin_factor :: real
  fN2bmin_factor :: real
  fCut :: bool
  fDo_avgspe :: bool
  fDo_amp :: bool

text \<open>Line 202: \<open>NBINS = fHibin + fLowbin + 1\<close>.\<close>

definition NBINS :: "config \<Rightarrow> int" where
  "NBINS cfg = fHibin cfg + fLowbin cfg + 1"

text \<open>Conversion of a \<open>double\<close> to \<open>Int_t\<close>: the fraction is discarded (towards zero).\<close>

definition trunc :: "real \<Rightarrow> int" where
  "trunc x = (if 0 \<le> x then \<lfloor>x\<rfloor> else \<lceil>x\<rceil>)"

subsection \<open>Pulse detector (lines 425--483)\<close>

text \<open>
  The local variables of the scan, plus the \<open>failed\<close> tally of \<open>analyze\<close> that line 475
  increments.
\<close>

record detector =
  fire :: bool
  counter :: int
  peak_count :: int
  pulse_peak :: real
  pulse_t_start :: real
  pulse_t_end :: real
  pulse_t_peak :: real
  pulse_t_peak_v :: "real list"
  failed :: int

text \<open>Line 444: \<open>pulse_t_start = counter - 1 > 0 ? counter - 1 : counter\<close>.\<close>

definition start_of :: "int \<Rightarrow> real" where
  "start_of c = (if c - 1 > 0 then of_int (c - 1) else of_int c)"

text \<open>Line 451: \<open>pulse_t_end = counter < ((int)wvfm.size()) ? counter : counter - 1\<close>.\<close>

definition end_of :: "real list \<Rightarrow> int \<Rightarrow> real" where
  "end_of wvfm c = (if c < int (length wvfm) then of_int c else of_int (c - 1))"

text \<open>Lines 434, 459 and 482: the four pulse variables are cleared together.\<close>

definition clear_pulse :: "detector \<Rightarrow> detector" where
  "clear_pulse s = s\<lparr>pulse_peak := 0, pulse_t_start := 0, pulse_t_end := 0, pulse_t_peak := 0\<rparr>"

text \<open>
  One iteration of the loop of line 436 (lines 438--475). The sample read is
  \<open>wvfm[counter]\<close>; \<open>counter\<close> and the loop variable \<open>i\<close> start equal and are both
  incremented once per iteration (the \<open>continue\<close> of line 475 is the last statement of the
  body, so it skips nothing), hence the read is within the array (lemmas
  \<open>scan_step_counter\<close> and \<open>scan_loop_counter\<close> below).
\<close>

definition scan_step :: "real list \<Rightarrow> real \<Rightarrow> detector \<Rightarrow> detector" where
  "scan_step wvfm thresh s =
    (let adc = wvfm ! nat (counter s);
         s1 =
           (if \<not> fire s \<and> adc > thresh then
              s\<lparr>fire := True, pulse_t_start := start_of (counter s)\<rparr>
            else if fire s \<and> adc < thresh then
              (let s2 = s\<lparr>fire := False, pulse_t_end := end_of wvfm (counter s)\<rparr>;
                   s3 =
                     (if pulse_t_end s2 - pulse_t_start s2 > 2 then
                        s2\<lparr>pulse_t_peak_v := pulse_t_peak_v s2 @ [pulse_t_peak s2],
                           peak_count := peak_count s2 + 1\<rparr>
                      else s2)
               in clear_pulse s3)
            else if fire s then
              (if adc > pulse_peak s then
                 s\<lparr>pulse_peak := adc, pulse_t_peak := of_int (counter s)\<rparr>
               else s)
            else s);
         s4 = s1\<lparr>counter := counter s1 + 1\<rparr>
     in if peak_count s4 = 200 then s4\<lparr>failed := failed s4 + 1\<rparr> else s4)"

text \<open>The loop of line 436, \<open>for (unsigned int i = fSpe_region_start; i < wvfm.size(); i++)\<close>.\<close>

function scan_loop :: "real list \<Rightarrow> real \<Rightarrow> nat \<Rightarrow> detector \<Rightarrow> detector" where
  "scan_loop wvfm thresh i s =
     (if i < length wvfm then scan_loop wvfm thresh (Suc i) (scan_step wvfm thresh s) else s)"
  by pat_completeness auto
termination
  by (relation "measure (\<lambda>(wvfm, thresh, i, s). length wvfm - i)") auto

declare scan_loop.simps [simp del]

text \<open>Lines 425--435: the state before the scan; \<open>f\<close> is the tally so far.\<close>

definition init_detector :: "int \<Rightarrow> int \<Rightarrow> detector" where
  "init_detector spe_region_start f =
     \<lparr>fire = False, counter = spe_region_start, peak_count = 0, pulse_peak = 0,
      pulse_t_start = 0, pulse_t_end = 0, pulse_t_peak = 0, pulse_t_peak_v = [], failed = f\<rparr>"

text \<open>
  Lines 425--483. A negative \<open>fSpe_region_start\<close> converts to an \<open>unsigned int\<close> of at
  least \<open>2^31\<close>, more than any waveform has samples (\<open>wvf_nbins\<close> is an \<open>Int_t\<close>), so the
  loop body never runs. After the loop a pulse still open is discarded (lines 479--483).
\<close>

definition detect :: "int \<Rightarrow> real list \<Rightarrow> real \<Rightarrow> int \<Rightarrow> detector" where
  "detect spe_region_start wvfm thresh f =
     (let s0 = init_detector spe_region_start f;
          s1 = (if spe_region_start < 0 then s0
                else scan_loop wvfm thresh (nat spe_region_start) s0)
      in if fire s1 then
           clear_pulse (s1\<lparr>fire := False, pulse_t_end := of_int (counter s1 - 1)\<rparr>)
         else s1)"

text \<open>
  Lines 488--506 copy the first \<open>peak_count\<close> entries of \<open>pulse_t_peak_v\<close> into
  \<open>wvf_spet\<close>, and \<open>nspe = peak_count\<close>.
\<close>

definition wvf_spet_of :: "detector \<Rightarrow> real list" where
  "wvf_spet_of s = take (nat (peak_count s)) (pulse_t_peak_v s)"

text \<open>
  An observer of the scan, not part of the program: the pulses that end (the branch of
  line 448) while the loop runs from index \<open>i\<close> in state \<open>s\<close>, each with the start,
  end and peak position the detector holds at that moment, in scan order.
\<close>

record pulse =
  start_index :: real
  end_index :: real
  peak_index :: real

function pulses :: "real list \<Rightarrow> real \<Rightarrow> nat \<Rightarrow> detector \<Rightarrow> pulse list" where
  "pulses wvfm thresh i s =
     (if i < length wvfm then
        (if fire s \<and> wvfm ! nat (counter s) < thresh then
           [\<lparr>start_index = pulse_t_start s, end_index = end_of wvfm (counter s),
             peak_index = pulse_t_peak s\<rparr>]
         else [])
        @ pulses wvfm thresh (Suc i) (scan_step wvfm thresh s)
      else [])"
  by pat_completeness auto
termination
  by (relation "measure (\<lambda>(wvfm, thresh, i, s). length wvfm - i)") auto

declare pulses.simps [simp del]

text \<open>The pulses that end during the scan of \<open>detect\<close>.\<close>

definition detected_pulses :: "int \<Rightarrow> real list \<Rightarrow> real \<Rightarrow> int \<Rightarrow> pulse list" where
  "detected_pulses spe_region_start wvfm thresh f =
     (if spe_region_start < 0 then []
      else pulses wvfm thresh (nat spe_region_start) (init_detector spe_region_start f))"

text \<open>
  What holds of the recorded positions before the iteration with \<open>i\<close>, for any
  threshold: each is a sample index, 0 or an index already scanned.
\<close>

definition position_inv :: "nat \<Rightarrow> detector \<Rightarrow> bool" where
  "position_inv i s \<longleftrightarrow>
     counter s = int i
     \<and> (\<exists>k. pulse_t_peak s = real k \<and> (k = 0 \<or> k < i))
     \<and> (\<forall>p \<in> set (pulse_t_peak_v s). \<exists>k. p = real k \<and> k < i)"


subsection \<open>Noise estimate (lines 351--417)\<close>

text \<open>
  The raw samples \<open>wvf[i]\<close> are integers (ADC counts), cast to \<open>double\<close> where they are
  read. Lines 351--360 find the first smallest sample.
\<close>

function highest_loop :: "int list \<Rightarrow> nat \<Rightarrow> real \<times> int \<Rightarrow> real \<times> int" where
  "highest_loop wvf ix (highestval, highestbin) =
     (if ix < length wvf then
        (if real_of_int (wvf ! ix) < highestval then
           highest_loop wvf (Suc ix) (real_of_int (wvf ! ix), int ix)
         else highest_loop wvf (Suc ix) (highestval, highestbin))
      else (highestval, highestbin))"
  by pat_completeness auto
termination
  by (relation "measure (\<lambda>(wvf, ix, hv). length wvf - ix)") auto

declare highest_loop.simps [simp del]

definition highestbin_of :: "int list \<Rightarrow> int" where
  "highestbin_of wvf = snd (highest_loop wvf 0 (999999, - 1))"

text \<open>Lines 366--368; the products are taken in the reals, then truncated to \<open>Int_t\<close>.\<close>

definition noisebinmin :: "config \<Rightarrow> int list \<Rightarrow> int" where
  "noisebinmin cfg wvf = trunc (fNbmin_factor cfg * of_int (highestbin_of wvf))"

definition noisebinmax :: "config \<Rightarrow> int list \<Rightarrow> int" where
  "noisebinmax cfg wvf = trunc (fNbmax_factor cfg * of_int (highestbin_of wvf))"

definition noisebin2min :: "config \<Rightarrow> int list \<Rightarrow> int" where
  "noisebin2min cfg wvf = trunc (fN2bmin_factor cfg * of_int (int (length wvf)))"

text \<open>
  The values the loop variable takes in the two loops of lines 372--382 (the mean), in
  order: \<open>i = noisebinmin .. noisebinmax\<close>, then \<open>i = noisebin2min .. wvf_nbins\<close>, both
  ends included (\<open>i <= \<dots>\<close>).
\<close>

definition mean_window1 :: "config \<Rightarrow> int list \<Rightarrow> int list" where
  "mean_window1 cfg wvf = [noisebinmin cfg wvf .. noisebinmax cfg wvf]"

definition mean_window2 :: "config \<Rightarrow> int list \<Rightarrow> int list" where
  "mean_window2 cfg wvf = [noisebin2min cfg wvf .. int (length wvf)]"

text \<open>
  The same for the two loops of lines 403--411 (the variance):
  \<open>i = noisebinmin .. noisebinmax\<close>, then \<open>i = noisebin2min - 1 .. wvf_nbins - 1\<close>
  (\<open>i < wvf_nbins\<close>).
\<close>

definition var_window1 :: "config \<Rightarrow> int list \<Rightarrow> int list" where
  "var_window1 cfg wvf = [noisebinmin cfg wvf .. noisebinmax cfg wvf]"

definition var_window2 :: "config \<Rightarrow> int list \<Rightarrow> int list" where
  "var_window2 cfg wvf = [noisebin2min cfg wvf - 1 .. int (length wvf) - 1]"

text \<open>\<open>(double)wvf[i]\<close>: an unchecked read of the raw waveform.\<close>

definition wvf_read :: "int list \<Rightarrow> int \<Rightarrow> error + real" where
  "wvf_read wvf i =
     (if 0 \<le> i \<and> i < int (length wvf) then Inr (real_of_int (wvf ! nat i))
      else Inl UndefinedRead)"

text \<open>\<open>wvfm[i]\<close> and \<open>wvfm.at(i)\<close>: the unchecked and the checked read of the signal.\<close>

definition wvfm_read :: "real list \<Rightarrow> int \<Rightarrow> error + real" where
  "wvfm_read wvfm i =
     (if 0 \<le> i \<and> i < int (length wvfm) then Inr (wvfm ! nat i) else Inl UndefinedRead)"

definition wvfm_at :: "real list \<Rightarrow> int \<Rightarrow> error + real" where
  "wvfm_at wvfm i =
     (if 0 \<le> i \<and> i < int (length wvfm) then Inr (wvfm ! nat i) else Inl OutOfRange)"

text \<open>
  The body of the loops of lines 372--382, run over the indices \<open>is\<close>:
  \<open>total += val; m++\<close> (\<open>tot\<close> is the variable \<open>total\<close>).
\<close>

fun total_over :: "int list \<Rightarrow> int list \<Rightarrow> real \<times> int \<Rightarrow> error + real \<times> int" where
  "total_over wvf [] (tot, m) = Inr (tot, m)"
| "total_over wvf (i # is) (tot, m) =
     (case wvf_read wvf i of
        Inl e \<Rightarrow> Inl e
      | Inr val \<Rightarrow> total_over wvf is (tot + val, m + 1))"

text \<open>The body of the loops of lines 403--411: \<open>totalvar += val * val\<close>.\<close>

fun totalvar_over :: "real list \<Rightarrow> int list \<Rightarrow> real \<Rightarrow> error + real" where
  "totalvar_over wvfm [] totalvar = Inr totalvar"
| "totalvar_over wvfm (i # is) totalvar =
     (case wvfm_at wvfm i of
        Inl e \<Rightarrow> Inl e
      | Inr val \<Rightarrow> totalvar_over wvfm is (totalvar + val * val))"

text \<open>Lines 387--390: the baseline-referenced signal, \<open>wvfm[i] = mean - wvf[i]\<close>.\<close>

definition baseline_subtract :: "real \<Rightarrow> int list \<Rightarrow> real list" where
  "baseline_subtract mean wvf = map (\<lambda>x. mean - real_of_int x) wvf"

text \<open>
  Lines 369--417: mean, signal, standard deviation and threshold; line 414 reads
  \<open>wvfm.at(highestbin)\<close> and uses the value no further. With \<open>m = 0\<close> the quotient
  \<open>total / m\<close> is not a number, which is where this model stops.
\<close>

definition noise_estimate :: "config \<Rightarrow> int list \<Rightarrow> error + real \<times> real list \<times> real \<times> real" where
  "noise_estimate cfg wvf =
     (case total_over wvf (mean_window1 cfg wvf @ mean_window2 cfg wvf) (0, 0) of
        Inl e \<Rightarrow> Inl e
      | Inr (tot, m) \<Rightarrow>
          if m = 0 then Inl NotFinite
          else
            (let mean = tot / of_int m;
                 wvfm = baseline_subtract mean wvf
             in case totalvar_over wvfm (var_window1 cfg wvf @ var_window2 cfg wvf) 0 of
                  Inl e \<Rightarrow> Inl e
                | Inr totalvar \<Rightarrow>
                    (let stdev = sqrt (totalvar / of_int m)
                     in case wvfm_at wvfm (highestbin_of wvf) of
                          Inl e \<Rightarrow> Inl e
                        | Inr highestval \<Rightarrow>
                            (let thresh = stdev * of_int (fNstdev cfg)
                             in Inr (mean, wvfm, stdev, thresh)))))"

subsection \<open>Average SPE shape and amplitudes (lines 514--549)\<close>

text \<open>
  The calibration slot of one channel, index \<open>pmt_counter\<close> of the vectors \<open>avgspe\<close>,
  \<open>navspes\<close> and \<open>amp\<close>. The histogram \<open>avgspe\<close> is its array of cells: cell \<open>0\<close> is the
  underflow, cells \<open>1 .. NBINS\<close> the bins, cell \<open>NBINS + 1\<close> the overflow. Of the
  histogram \<open>amp\<close> only the values passed to \<open>Fill\<close> are kept, in order.
\<close>

record slot =
  avgspe :: "real list"
  navspes :: int
  amp :: "real list"

text \<open>Line 518, the boundary check: true when the peak is skipped.\<close>

definition outside_window :: "config \<Rightarrow> int \<Rightarrow> int \<Rightarrow> bool" where
  "outside_window cfg wvf_nbins peakbin =
     (peakbin - fLowbin cfg < 0 \<or> peakbin + fHibin cfg > wvf_nbins)"

text \<open>Lines 522--527: the selection of peak \<open>t = wvf_spet[i]\<close> against every peak \<open>wvf_spet[l]\<close>.\<close>

fun veto_loop :: "real \<Rightarrow> real list \<Rightarrow> bool \<Rightarrow> bool" where
  "veto_loop t [] selected = selected"
| "veto_loop t (u # us) selected =
     veto_loop t us (if t - u < 0.1 \<and> t - u > 0 then False else selected)"

definition selected_peak :: "config \<Rightarrow> real list \<Rightarrow> nat \<Rightarrow> bool" where
  "selected_peak cfg wvf_spet i =
     (let selected = veto_loop (wvf_spet ! i) wvf_spet True
      in if fCut cfg = False then True else selected)"

text \<open>
  Lines 531--534, with \<open>base = peakbin - fLowbin\<close>: for \<open>j = 1 .. NBINS\<close>, cell \<open>j\<close> of the
  histogram receives \<open>wvfm[base + j]\<close> (\<open>AddBinContent\<close> adds to the cell).
\<close>

function add_window :: "real list \<Rightarrow> int \<Rightarrow> int \<Rightarrow> int \<Rightarrow> real list \<Rightarrow> error + real list" where
  "add_window wvfm base j nbins h =
     (if j \<le> nbins then
        (case wvfm_read wvfm (base + j) of
           Inl e \<Rightarrow> Inl e
         | Inr le_bin \<Rightarrow> add_window wvfm base (j + 1) nbins (h[nat j := h ! nat j + le_bin]))
      else Inr h)"
  by pat_completeness auto
termination
  by (relation "measure (\<lambda>(wvfm, base, j, nbins, h). nat (nbins + 1 - j))") auto

declare add_window.simps [simp del]

text \<open>Lines 517--536: the body of the loop over the peaks, for peak number \<open>i\<close>.\<close>

definition shape_peak :: "config \<Rightarrow> real list \<Rightarrow> real list \<Rightarrow> nat \<Rightarrow> slot \<Rightarrow> error + slot" where
  "shape_peak cfg wvfm wvf_spet i sl =
     (let peakbin = trunc (wvf_spet ! i)
      in if outside_window cfg (int (length wvfm)) peakbin then Inr sl
         else if selected_peak cfg wvf_spet i then
           (case add_window wvfm (peakbin - fLowbin cfg) 1 (NBINS cfg) (avgspe sl) of
              Inl e \<Rightarrow> Inl e
            | Inr h \<Rightarrow> Inr (sl\<lparr>avgspe := h, navspes := navspes sl + 1\<rparr>))
         else Inr sl)"

function shape_loop :: "config \<Rightarrow> real list \<Rightarrow> real list \<Rightarrow> nat \<Rightarrow> slot \<Rightarrow> error + slot" where
  "shape_loop cfg wvfm wvf_spet i sl =
     (if i < length wvf_spet then
        (case shape_peak cfg wvfm wvf_spet i sl of
           Inl e \<Rightarrow> Inl e
         | Inr sl' \<Rightarrow> shape_loop cfg wvfm wvf_spet (Suc i) sl')
      else Inr sl)"
  by pat_completeness auto
termination
  by (relation "measure (\<lambda>(cfg, wvfm, wvf_spet, i, sl). length wvf_spet - i)") auto

declare shape_loop.simps [simp del]

definition shape_accumulate :: "config \<Rightarrow> real list \<Rightarrow> real list \<Rightarrow> slot \<Rightarrow> error + slot" where
  "shape_accumulate cfg wvfm wvf_spet sl =
     (if fDo_avgspe cfg then shape_loop cfg wvfm wvf_spet 0 sl else Inr sl)"

text \<open>Lines 544--547: the body of the amplitude loop, for peak number \<open>i\<close>.\<close>

definition amp_peak :: "config \<Rightarrow> real list \<Rightarrow> real list \<Rightarrow> nat \<Rightarrow> slot \<Rightarrow> error + slot" where
  "amp_peak cfg wvfm wvf_spet i sl =
     (let peakbin = trunc (wvf_spet ! i)
      in case wvfm_at wvfm peakbin of
           Inl e \<Rightarrow> Inl e
         | Inr peakheight \<Rightarrow>
             (let sl1 = sl\<lparr>amp := amp sl @ [peakheight]\<rparr>
              in Inr (if \<not> fDo_avgspe cfg then sl1\<lparr>navspes := navspes sl1 + 1\<rparr> else sl1)))"

function amp_loop :: "config \<Rightarrow> real list \<Rightarrow> real list \<Rightarrow> nat \<Rightarrow> slot \<Rightarrow> error + slot" where
  "amp_loop cfg wvfm wvf_spet i sl =
     (if i < length wvf_spet then
        (case amp_peak cfg wvfm wvf_spet i sl of
           Inl e \<Rightarrow> Inl e
         | Inr sl' \<Rightarrow> amp_loop cfg wvfm wvf_spet (Suc i) sl')
      else Inr sl)"
  by pat_completeness auto
termination
  by (relation "measure (\<lambda>(cfg, wvfm, wvf_spet, i, sl). length wvf_spet - i)") auto

declare amp_loop.simps [simp del]

definition amp_extract :: "config \<Rightarrow> real list \<Rightarrow> real list \<Rightarrow> slot \<Rightarrow> error + slot" where
  "amp_extract cfg wvfm wvf_spet sl =
     (if fDo_amp cfg then amp_loop cfg wvfm wvf_spet 0 sl else Inr sl)"

subsection \<open>One waveform, from the signal on (lines 425--549 and 680)\<close>

text \<open>
  The tallies \<open>success\<close> and \<open>failed\<close> of \<open>analyze\<close> and the slot of the channel, after the
  waveform with signal \<open>wvfm\<close> and threshold \<open>thresh\<close> has gone through detection, the check
  of line 507, the shape accumulation and the amplitude extraction (\<open>failures\<close> is the
  variable \<open>failed\<close>). The integrals (lines 554--678) are outside this development: the
  function is the code for a configuration with \<open>fDo_integ = false\<close>.
\<close>

record run =
  success :: int
  failures :: int
  channel_slot :: slot

definition analyze_signal :: "config \<Rightarrow> real list \<Rightarrow> real \<Rightarrow> run \<Rightarrow> error + run" where
  "analyze_signal cfg wvfm thresh r =
     (let s = detect (fSpe_region_start cfg) wvfm thresh (failures r);
          nspe = peak_count s;
          wvf_spet = wvf_spet_of s
      in if nspe = 0 then Inr (r\<lparr>failures := failed s + 1\<rparr>)
         else
           (case shape_accumulate cfg wvfm wvf_spet (channel_slot r) of
              Inl e \<Rightarrow> Inl e
            | Inr sl1 \<Rightarrow>
                (case amp_extract cfg wvfm wvf_spet sl1 of
                   Inl e \<Rightarrow> Inl e
                 | Inr sl2 \<Rightarrow>
                     Inr (r\<lparr>success := success r + 1, failures := failed s,
                            channel_slot := sl2\<rparr>))))"

subsection \<open>Normalisation at the end of the job (lines 722--737)\<close>

text \<open>
  After the division a cell may no longer hold a number, so a cell is a \<open>real option\<close>
  here, \<open>None\<close> for the value a division by zero leaves (NaN or infinite). The histogram
  functions are those of the library: \<open>GetSize\<close> is the number of cells,
  \<open>GetBinContent\<close> reads the last cell for an index beyond it, \<open>SetBinContent\<close> ignores
  an index beyond the last cell.
\<close>

definition divide_bin :: "real option \<Rightarrow> int \<Rightarrow> real option" where
  "divide_bin le_bin n =
     (case le_bin of
        None \<Rightarrow> None
      | Some x \<Rightarrow> if n = 0 then None else Some (x / of_int n))"

definition GetBinContent :: "real option list \<Rightarrow> nat \<Rightarrow> real option" where
  "GetBinContent h ix = (if ix < length h then h ! ix else h ! (length h - 1))"

definition SetBinContent :: "real option list \<Rightarrow> nat \<Rightarrow> real option \<Rightarrow> real option list" where
  "SetBinContent h ix v = (if ix < length h then h[ix := v] else h)"

text \<open>Lines 729--735: \<open>for (ix = 1; ix <= GetSize(); ix++)\<close>, dividing by \<open>navspes[ihist]\<close>.\<close>

function normalise_loop :: "int \<Rightarrow> nat \<Rightarrow> real option list \<Rightarrow> real option list" where
  "normalise_loop n ix h =
     (if ix \<le> length h then
        normalise_loop n (Suc ix) (SetBinContent h ix (divide_bin (GetBinContent h ix) n))
      else h)"
  by pat_completeness auto
termination
proof (relation "measure (\<lambda>(n, ix, h). Suc (length h) - ix)")
  show "wf (measure (\<lambda>(n, ix, h). Suc (length h) - ix))"
    by simp
next
  fix n :: int and ix :: nat and h :: "real option list"
  assume "ix \<le> length h"
  then show "((n, Suc ix, SetBinContent h ix (divide_bin (GetBinContent h ix) n)), (n, ix, h))
    \<in> measure (\<lambda>(n, ix, h). Suc (length h) - ix)"
    by (auto simp add: SetBinContent_def)
qed

declare normalise_loop.simps [simp del]

definition normalise_slot :: "slot \<Rightarrow> real option list" where
  "normalise_slot sl = normalise_loop (navspes sl) 1 (map Some (avgspe sl))"

text \<open>Line 728: every slot of the table is normalised.\<close>

definition endJob :: "slot list \<Rightarrow> real option list list" where
  "endJob slots = map normalise_slot slots"

subsection \<open>A configuration for the examples\<close>

definition example_config :: config where
  "example_config =
     \<lparr>fLowbin = 1, fHibin = 1, fNstdev = 1, fSpe_region_start = 0, fNbmax_factor = 0.5,
      fNbmin_factor = 0, fN2bmin_factor = 0.75, fCut = True, fDo_avgspe = True,
      fDo_amp = True\<rparr>"

text \<open>
  A signal with \<open>n\<close> pulses of three samples each, for the threshold 1: two samples at
  the baseline, then \<open>n\<close> times two samples above the threshold and one below.
\<close>

definition pulse_train :: "nat \<Rightarrow> real list" where
  "pulse_train n = [0, 0] @ concat (replicate n [2, 2, 0])"

section \<open>Properties\<close>

lemma scan_loop_unfold:
  "i < length wvfm \<Longrightarrow>
   scan_loop wvfm thresh i s = scan_loop wvfm thresh (Suc i) (scan_step wvfm thresh s)"
  by (simp add: scan_loop.simps [of wvfm thresh i s])

lemma scan_loop_done: "\<not> i < length wvfm \<Longrightarrow> scan_loop wvfm thresh i s = s"
  by (simp add: scan_loop.simps [of wvfm thresh i s])

subsection \<open>Noise windows\<close>

lemma mean_window2_reads_length:
  "int (length wvf) \<in> set (mean_window2 cfg wvf) \<longleftrightarrow> noisebin2min cfg wvf \<le> int (length wvf)"
  by (simp add: mean_window2_def)

lemma var_window2_shifted:
  "var_window2 cfg wvf = map (\<lambda>i. i - 1) (mean_window2 cfg wvf)"
proof -
  have "[lo - 1 .. hi - 1] = map (\<lambda>i. i - 1) [lo .. hi]" for lo hi :: int
    by (rule nth_equalityI) auto
  then show ?thesis
    by (simp add: var_window2_def mean_window2_def)
qed

lemma example_mean_windows:
  "mean_window1 example_config [100, 100, 90, 100] = [0, 1]"
  "mean_window2 example_config [100, 100, 90, 100] = [3, 4]"
  by code_simp+

text \<open>
  C10. The claim is that the mean loops read no index beyond the last sample. On the
  waveform \<open>[100, 100, 90, 100]\<close> (four samples, the smallest at index 2) with factors
  \<open>0\<close>, \<open>0.5\<close> and \<open>0.75\<close>, the second mean loop runs over the indices 3 and 4: it reads
  \<open>wvf[4]\<close>, one past the last sample, so the estimate is an undefined read.
\<close>

theorem mean_loop_reads_past_end:
  "mean_window2 example_config [100, 100, 90, 100] = [3, 4]
   \<and> wvf_read [100, 100, 90, 100] 4 = Inl UndefinedRead
   \<and> noise_estimate example_config [100, 100, 90, 100] = Inl UndefinedRead"
  by (simp add: noise_estimate_def example_mean_windows wvf_read_def)

text \<open>
  C5. The claim is that the variance is taken over the two windows of the mean. On the
  same waveform and factors the first windows agree (indices 0 and 1), but the second
  window of the mean is 3, 4 and the second window of the variance is 2, 3: it is the
  window of the mean moved down by one, and here it takes in the extreme sample at
  index 2.
\<close>

theorem variance_windows_differ:
  "mean_window1 example_config [100, 100, 90, 100] = [0, 1]
   \<and> mean_window2 example_config [100, 100, 90, 100] = [3, 4]
   \<and> var_window1 example_config [100, 100, 90, 100] = [0, 1]
   \<and> var_window2 example_config [100, 100, 90, 100] = [2, 3]"
  by code_simp

subsection \<open>Pulse detector\<close>

lemma start_of_cases: "start_of c = of_int (if 2 \<le> c then c - 1 else c)"
  by (simp add: start_of_def)

lemma start_of_clamp: "0 \<le> c \<Longrightarrow> start_of c = of_int (max (c - 1) 0) \<longleftrightarrow> c \<noteq> 1"
  by (auto simp add: start_of_def max_def)

text \<open>
  C6. The claim is that a pulse found at scan index \<open>i\<close> gets the start index
  \<open>max (i - 1) 0\<close>. With the scan at index 1 of the signal \<open>[0, 5]\<close> and threshold 1, the
  detector goes from idle to in-pulse and records the start index 1, where
  \<open>max (1 - 1) 0 = 0\<close>.
\<close>

theorem start_not_moved_back_at_one:
  "\<not> fire (init_detector 1 0)
   \<and> fire (scan_step [0, 5] 1 (init_detector 1 0))
   \<and> pulse_t_start (scan_step [0, 5] 1 (init_detector 1 0)) = 1
   \<and> real_of_int (max (counter (init_detector 1 0) - 1) 0) = 0"
  by code_simp

lemma scan_step_counter: "counter (scan_step wvfm thresh s) = counter s + 1"
  by (simp add: scan_step_def Let_def clear_pulse_def)

text \<open>
  The tally changes in one place only: it goes up after every iteration that ends with
  \<open>peak_count = 200\<close>.
\<close>

lemma scan_step_failed:
  "failed (scan_step wvfm thresh s) =
     failed s + (if peak_count (scan_step wvfm thresh s) = 200 then 1 else 0)"
  by (simp add: scan_step_def Let_def clear_pulse_def)

text \<open>
  The scan visits every sample from \<open>i\<close> to the end, whatever the number of accepted
  pulses: \<open>counter\<close> stays equal to the loop variable.
\<close>

lemma scan_loop_counter:
  "counter (scan_loop wvfm thresh i s) = counter s + int (length wvfm - i)"
proof (induction wvfm thresh i s rule: scan_loop.induct)
  case (1 wvfm thresh i s)
  show ?case
  proof (cases "i < length wvfm")
    case True
    then have "int (length wvfm - i) = 1 + int (length wvfm - Suc i)"
      by simp
    then show ?thesis
      using "1.IH" [OF True] True by (simp add: scan_loop_unfold scan_step_counter)
  next
    case False
    then show ?thesis
      by (simp add: scan_loop_done)
  qed
qed

lemma detect_peaks:
  "pulse_t_peak_v (detect start wvfm thresh f) =
     (if start < 0 then []
      else pulse_t_peak_v (scan_loop wvfm thresh (nat start) (init_detector start f)))"
  by (simp add: detect_def Let_def clear_pulse_def init_detector_def)

lemma detect_peak_count:
  "peak_count (detect start wvfm thresh f) =
     (if start < 0 then 0
      else peak_count (scan_loop wvfm thresh (nat start) (init_detector start f)))"
  by (simp add: detect_def Let_def clear_pulse_def init_detector_def)

lemma scan_step_count:
  "peak_count s = int (length (pulse_t_peak_v s)) \<Longrightarrow>
   peak_count (scan_step wvfm thresh s) = int (length (pulse_t_peak_v (scan_step wvfm thresh s)))"
  by (simp add: scan_step_def Let_def clear_pulse_def)

lemma scan_loop_count:
  "peak_count s = int (length (pulse_t_peak_v s)) \<Longrightarrow>
   peak_count (scan_loop wvfm thresh i s)
     = int (length (pulse_t_peak_v (scan_loop wvfm thresh i s)))"
proof (induction wvfm thresh i s rule: scan_loop.induct)
  case (1 wvfm thresh i s)
  show ?case
  proof (cases "i < length wvfm")
    case True
    show ?thesis
      using "1.IH" [OF True scan_step_count [OF "1.prems"]] True
      by (simp add: scan_loop_unfold)
  next
    case False
    then show ?thesis
      using "1.prems" by (simp add: scan_loop_done)
  qed
qed

text \<open>The list handed to the extraction stages is the whole list of accepted peaks.\<close>

lemma wvf_spet_of_detect:
  "wvf_spet_of (detect start wvfm thresh f) = pulse_t_peak_v (detect start wvfm thresh f)"
proof -
  have "peak_count (init_detector start f) = int (length (pulse_t_peak_v (init_detector start f)))"
    by (simp add: init_detector_def)
  from scan_loop_count [OF this]
  show ?thesis
    by (simp add: wvf_spet_of_def detect_peaks detect_peak_count)
qed

text \<open>Every accepted peak position is an index of the signal.\<close>

lemma scan_step_position:
  assumes "i < length wvfm" and "position_inv i s"
  shows "position_inv (Suc i) (scan_step wvfm thresh s)"
proof -
  from assms(2) obtain k where c: "counter s = int i"
    and k: "pulse_t_peak s = real k" "k = 0 \<or> k < i"
    and ps: "\<forall>p \<in> set (pulse_t_peak_v s). \<exists>k. p = real k \<and> k < i"
    by (auto simp add: position_inv_def)
  have ps': "\<exists>k. p = real k \<and> k < Suc i" if "p \<in> set (pulse_t_peak_v s)" for p
    using ps that by (meson less_Suc_eq)
  have new: "\<exists>k'. pulse_t_peak s = real k' \<and> k' < Suc i"
    using k by auto
  have cur: "\<exists>k'. real_of_int (int i) = real k' \<and> (k' = 0 \<or> k' < Suc i)"
    by (rule exI [of _ i]) simp
  have old: "\<exists>k'. pulse_t_peak s = real k' \<and> (k' = 0 \<or> k' < Suc i)"
    using k by auto
  have zero: "\<exists>k'. (0::real) = real k' \<and> (k' = 0 \<or> k' < Suc i)"
    by (rule exI [of _ 0]) simp
  show ?thesis
    unfolding position_inv_def scan_step_def Let_def clear_pulse_def
    using c ps' new cur old zero by (auto split: if_splits)
qed

lemma scan_loop_position:
  assumes "position_inv i s"
  shows "\<forall>p \<in> set (pulse_t_peak_v (scan_loop wvfm thresh i s)).
           \<exists>k. p = real k \<and> k < max i (length wvfm)"
  using assms
proof (induction wvfm thresh i s rule: scan_loop.induct)
  case (1 wvfm thresh i s)
  show ?case
  proof (cases "i < length wvfm")
    case True
    have "position_inv (Suc i) (scan_step wvfm thresh s)"
      by (rule scan_step_position [OF True "1.prems"])
    then show ?thesis
      using "1.IH" [OF True] True by (simp add: scan_loop_unfold max_def)
  next
    case False
    then show ?thesis
      using "1.prems" by (auto simp add: scan_loop_done position_inv_def max_def)
  qed
qed

lemma position_inv_init: "0 \<le> start \<Longrightarrow> position_inv (nat start) (init_detector start f)"
  by (simp add: position_inv_def init_detector_def)

lemma detect_positions:
  assumes "t \<in> set (pulse_t_peak_v (detect start wvfm thresh f))"
  shows "t \<in> \<int> \<and> 0 \<le> trunc t \<and> trunc t < int (length wvfm)"
proof -
  have nonneg: "0 \<le> start"
    using assms by (simp add: detect_peaks split: if_splits)
  then have mem: "t \<in> set (pulse_t_peak_v (scan_loop wvfm thresh (nat start) (init_detector start f)))"
    using assms by (simp add: detect_peaks)
  have run: "nat start < length wvfm"
  proof (rule ccontr)
    assume "\<not> nat start < length wvfm"
    then show False
      using mem by (simp add: scan_loop_done init_detector_def)
  qed
  obtain k where "t = real k" "k < length wvfm"
    using scan_loop_position [OF position_inv_init [OF nonneg], of wvfm thresh f] mem run
    by (auto simp add: max_def)
  then show ?thesis
    by (simp add: trunc_def)
qed

lemma detected_positions:
  assumes "t \<in> set (wvf_spet_of (detect start wvfm thresh f))"
  shows "t \<in> \<int> \<and> 0 \<le> trunc t \<and> trunc t < int (length wvfm)"
  using assms detect_positions by (simp add: wvf_spet_of_detect)

lemma scan_step_peaks:
  "pulse_t_peak_v (scan_step wvfm thresh s) =
     pulse_t_peak_v s @ map peak_index (filter (\<lambda>p. 2 < end_index p - start_index p)
       (if fire s \<and> wvfm ! nat (counter s) < thresh then
           [\<lparr>start_index = pulse_t_start s, end_index = end_of wvfm (counter s),
             peak_index = pulse_t_peak s\<rparr>]
         else []))"
  by (simp add: scan_step_def Let_def clear_pulse_def)

lemma scan_loop_peaks:
  "pulse_t_peak_v (scan_loop wvfm thresh i s) =
     pulse_t_peak_v s
     @ map peak_index (filter (\<lambda>p. 2 < end_index p - start_index p) (pulses wvfm thresh i s))"
proof (induction wvfm thresh i s rule: scan_loop.induct)
  case (1 wvfm thresh i s)
  show ?case
  proof (cases "i < length wvfm")
    case True
    show ?thesis
      using "1.IH" [OF True] True
      by (simp add: scan_loop_unfold pulses.simps [of wvfm thresh i s] scan_step_peaks)
  next
    case False
    then show ?thesis
      by (simp add: scan_loop_done pulses.simps [of wvfm thresh i s])
  qed
qed

text \<open>
  C7. The accepted-peak list that detection hands on consists of the peak positions of
  exactly those pulses, among the pulses that ended during the scan, whose recorded end
  minus recorded start exceeds 2, in scan order. A pulse with end minus start of 2 or
  less leaves no entry: dropping it changes neither the list nor the count, and the
  tally follows the count alone (lemma \<open>scan_step_failed\<close>).
\<close>

theorem short_pulses_not_reported:
  "wvf_spet_of (detect spe_region_start wvfm thresh f) =
     map peak_index (filter (\<lambda>p. 2 < end_index p - start_index p)
       (detected_pulses spe_region_start wvfm thresh f))"
  by (simp add: wvf_spet_of_detect detect_peaks detected_pulses_def scan_loop_peaks
      init_detector_def)

text \<open>
  An example: the one-sample pulse at index 2 (start 1, end 3) is dropped, the pulse over
  samples 5 to 7 (start 4, end 8) is reported with its peak at 6.
\<close>

lemma short_pulse_example:
  "detected_pulses 0 [0, 0, 5, 0, 0, 5, 9, 5, 0] 1 0 =
     [\<lparr>start_index = 1, end_index = 3, peak_index = 0\<rparr>,
      \<lparr>start_index = 4, end_index = 8, peak_index = 6\<rparr>]
   \<and> wvf_spet_of (detect 0 [0, 0, 5, 0, 0, 5, 9, 5, 0] 1 0) = [6]"
  by code_simp







lemma pulse_train_detect:
  "(let s = detect 0 (pulse_train 201) 1 0 in failed s = 3 \<and> peak_count s = 201)"
  by code_simp

text \<open>
  C1. The claim is that at 200 accepted pulses the waveform is counted as failed once and
  its scan stops. For the signal \<open>pulse_train 201\<close> (201 pulses) and threshold 1 the scan
  goes on after the 200th pulse: the 201st pulse is accepted too, and the tally has gone
  up three times, once for every iteration that ended with \<open>peak_count = 200\<close>. The
  waveform is then processed like any other and counted as a success as well.
\<close>

theorem breaker_does_not_stop_scan:
  "failed (detect 0 (pulse_train 201) 1 0) = 3
   \<and> peak_count (detect 0 (pulse_train 201) 1 0) = 201
   \<and> analyze_signal (example_config\<lparr>fDo_avgspe := False, fDo_amp := False\<rparr>) (pulse_train 201) 1
        \<lparr>success = 0, failures = 0,
         channel_slot = \<lparr>avgspe = [0, 0, 0, 0, 0], navspes = 0, amp = []\<rparr>\<rparr>
      = Inr \<lparr>success = 1, failures = 3,
             channel_slot = \<lparr>avgspe = [0, 0, 0, 0, 0], navspes = 0, amp = []\<rparr>\<rparr>"
  using pulse_train_detect
  by (simp add: Let_def analyze_signal_def example_config_def shape_accumulate_def
      amp_extract_def)

subsection \<open>Shape accumulation\<close>

text \<open>
  When every read is inside the signal, cell \<open>k\<close> of the histogram, for \<open>k\<close> from \<open>j\<close> to
  \<open>nbins\<close>, receives \<open>wvfm[base + k]\<close>, and the other cells are unchanged.
\<close>

lemma add_window_cells:
  assumes "0 \<le> j"
    and "\<forall>k. j \<le> k \<and> k \<le> nbins \<longrightarrow> 0 \<le> base + k \<and> base + k < int (length wvfm)"
    and "nbins < int (length h)"
  shows "\<exists>h'. add_window wvfm base j nbins h = Inr h' \<and> length h' = length h
          \<and> (\<forall>k < length h. h' ! k =
                (if j \<le> int k \<and> int k \<le> nbins then h ! k + wvfm ! nat (base + int k) else h ! k))"
  using assms
proof (induction wvfm base j nbins h rule: add_window.induct)
  case (1 wvfm base j nbins h)
  show ?case
  proof (cases "j \<le> nbins")
    case True
    then have rd: "wvfm_read wvfm (base + j) = Inr (wvfm ! nat (base + j))"
      using "1.prems" by (simp add: wvfm_read_def)
    define h1 where "h1 = h[nat j := h ! nat j + wvfm ! nat (base + j)]"
    have "\<exists>h'. add_window wvfm base (j + 1) nbins h1 = Inr h' \<and> length h' = length h1
          \<and> (\<forall>k < length h1. h' ! k =
                (if j + 1 \<le> int k \<and> int k \<le> nbins then h1 ! k + wvfm ! nat (base + int k) else h1 ! k))"
      using "1.IH" [OF True rd, folded h1_def] "1.prems" by (simp add: h1_def)
    then obtain h' where r: "add_window wvfm base (j + 1) nbins h1 = Inr h'" "length h' = length h1"
      and c: "\<forall>k < length h1. h' ! k =
                (if j + 1 \<le> int k \<and> int k \<le> nbins then h1 ! k + wvfm ! nat (base + int k) else h1 ! k)"
      by blast
    have "add_window wvfm base j nbins h = Inr h'"
      using True rd r by (simp add: add_window.simps [of wvfm base j nbins h] h1_def)
    moreover have "length h' = length h"
      using r by (simp add: h1_def)
    moreover have "h' ! k = (if j \<le> int k \<and> int k \<le> nbins then h ! k + wvfm ! nat (base + int k) else h ! k)"
      if "k < length h" for k
    proof (cases "int k = j")
      case True
      then have "k = nat j" by simp
      then show ?thesis
        using c that "1.prems" \<open>j \<le> nbins\<close> by (simp add: h1_def)
    next
      case False
      then have "k \<noteq> nat j" using "1.prems"(1) by auto
      then show ?thesis
        using c that False by (auto simp add: h1_def)
    qed
    ultimately show ?thesis by blast
  next
    case False
    then show ?thesis
      by (simp add: add_window.simps [of wvfm base j nbins h])
  qed
qed


lemma veto_loop_iff:
  "veto_loop t us selected \<longleftrightarrow> selected \<and> \<not> (\<exists>u \<in> set us. 0 < t - u \<and> t - u < 0.1)"
  by (induction us arbitrary: selected) auto

lemma selected_peak_iff:
  "selected_peak cfg wvf_spet i \<longleftrightarrow>
     \<not> (fCut cfg \<and> (\<exists>u \<in> set wvf_spet. 0 < wvf_spet ! i - u \<and> wvf_spet ! i - u < 0.1))"
  by (auto simp add: selected_peak_def Let_def veto_loop_iff)

text \<open>
  The positions the detector produces are sample indices, so two of them are never less
  than 0.1 apart unless equal: on such positions the veto excludes nothing.
\<close>

lemma veto_idle_on_sample_indices:
  assumes "\<forall>t \<in> set wvf_spet. t \<in> \<int>"
    and "i < length wvf_spet"
  shows "selected_peak cfg wvf_spet i"
proof -
  have "\<not> (0 < wvf_spet ! i - u \<and> wvf_spet ! i - u < 0.1)" if "u \<in> set wvf_spet" for u
  proof -
    have "wvf_spet ! i - u \<in> \<int>"
      using assms that by (simp add: Ints_diff)
    then obtain k :: int where "wvf_spet ! i - u = of_int k"
      by (auto elim: Ints_cases)
    then show ?thesis
      by auto
  qed
  then show ?thesis
    by (auto simp add: selected_peak_iff)
qed

lemma veto_idle_on_detected_peaks:
  assumes "i < length (wvf_spet_of (detect start wvfm thresh f))"
  shows "selected_peak cfg (wvf_spet_of (detect start wvfm thresh f)) i"
  using assms detected_positions [of _ start wvfm thresh f]
  by (intro veto_idle_on_sample_indices) auto




text \<open>
  On the detector's own output two peaks less than 0.1 apart are at the same position,
  and the veto leaves both in: with threshold 0 the signal below has two accepted peaks
  at position 0, and with \<open>fLowbin = fHibin = 0\<close> and the veto enabled each adds its
  one-sample window and one count.
\<close>

lemma veto_passes_equal_peaks:
  "wvf_spet_of (detect 0 [0, 1, 0, 0, - 1, 1, 0, 0, - 1] 0 0) = [0, 0]
   \<and> analyze_signal (example_config\<lparr>fLowbin := 0, fHibin := 0, fDo_amp := False\<rparr>)
        [0, 1, 0, 0, - 1, 1, 0, 0, - 1] 0
        \<lparr>success = 0, failures = 0, channel_slot = \<lparr>avgspe = [0, 0, 0], navspes = 0, amp = []\<rparr>\<rparr>
      = Inr \<lparr>success = 1, failures = 0,
             channel_slot = \<lparr>avgspe = [0, 2, 0], navspes = 2, amp = []\<rparr>\<rparr>"
  by code_simp

subsection \<open>Amplitudes\<close>

lemma amp_loop_all:
  assumes "\<forall>t \<in> set (drop i wvf_spet). 0 \<le> trunc t \<and> trunc t < int (length wvfm)"
  shows "\<exists>sl'. amp_loop cfg wvfm wvf_spet i sl = Inr sl'
          \<and> amp sl' = amp sl @ map (\<lambda>t. wvfm ! nat (trunc t)) (drop i wvf_spet)
          \<and> avgspe sl' = avgspe sl"
  using assms
proof (induction cfg wvfm wvf_spet i sl rule: amp_loop.induct)
  case (1 cfg wvfm wvf_spet i sl)
  show ?case
  proof (cases "i < length wvf_spet")
    case True
    then have d: "drop i wvf_spet = wvf_spet ! i # drop (Suc i) wvf_spet"
      by (simp add: Cons_nth_drop_Suc)
    with "1.prems" have r: "0 \<le> trunc (wvf_spet ! i)" "trunc (wvf_spet ! i) < int (length wvfm)"
      and rest: "\<forall>t \<in> set (drop (Suc i) wvf_spet). 0 \<le> trunc t \<and> trunc t < int (length wvfm)"
      by simp_all
    define sl1 where "sl1 = sl\<lparr>amp := amp sl @ [wvfm ! nat (trunc (wvf_spet ! i))]\<rparr>"
    define sl2 where "sl2 = (if \<not> fDo_avgspe cfg then sl1\<lparr>navspes := navspes sl1 + 1\<rparr> else sl1)"
    have step: "amp_peak cfg wvfm wvf_spet i sl = Inr sl2"
      using r by (simp add: amp_peak_def wvfm_at_def Let_def sl1_def sl2_def)
    from "1.IH" [OF True step rest]
    obtain sl' where "amp_loop cfg wvfm wvf_spet (Suc i) sl2 = Inr sl'"
      and "amp sl' = amp sl2 @ map (\<lambda>t. wvfm ! nat (trunc t)) (drop (Suc i) wvf_spet)"
      and "avgspe sl' = avgspe sl2"
      by blast
    then show ?thesis
      using True step d by (simp add: amp_loop.simps [of cfg wvfm wvf_spet i sl] sl1_def sl2_def)
  next
    case False
    then show ?thesis
      by (simp add: amp_loop.simps [of cfg wvfm wvf_spet i sl])
  qed
qed

lemma amp_extract_all:
  assumes "fDo_amp cfg"
    and "\<forall>t \<in> set wvf_spet. 0 \<le> trunc t \<and> trunc t < int (length wvfm)"
  shows "\<exists>sl'. amp_extract cfg wvfm wvf_spet sl = Inr sl'
          \<and> amp sl' = amp sl @ map (\<lambda>t. wvfm ! nat (trunc t)) wvf_spet"
  using amp_loop_all [of 0 wvf_spet wvfm cfg sl] assms
  by (auto simp add: amp_extract_def)

text \<open>
  C9, as the code has it. The amplitude loop has no boundary check: when amplitudes are
  enabled, the signal value at every accepted peak of the waveform is appended to the
  amplitude collection, in the order of the peaks (and no read fails).
\<close>

theorem amplitude_of_every_peak:
  assumes "fDo_amp cfg"
  shows "\<exists>sl'. amp_extract cfg wvfm (wvf_spet_of (detect start wvfm thresh f)) sl = Inr sl'
          \<and> amp sl' = amp sl
               @ map (\<lambda>t. wvfm ! nat (trunc t)) (wvf_spet_of (detect start wvfm thresh f))"
  using assms detected_positions [of _ start wvfm thresh f]
  by (intro amp_extract_all) auto

text \<open>
  The theorem for a ten-sample signal with threshold 1, whose accepted peaks are at 3
  and 7.
\<close>

theorem amplitude_of_every_peak_witness:
  "fDo_amp example_config
   \<and> wvf_spet_of (detect 0 [0, 0, 5, 9, 5, 0, 7, 8, 7, 0] 1 0) = [3, 7]
   \<and> (\<exists>sl'. amp_extract example_config [0, 0, 5, 9, 5, 0, 7, 8, 7, 0]
               (wvf_spet_of (detect 0 [0, 0, 5, 9, 5, 0, 7, 8, 7, 0] 1 0))
               \<lparr>avgspe = [0, 0, 0, 0, 0], navspes = 0, amp = []\<rparr> = Inr sl'
          \<and> amp sl' = [9, 8])"
proof -
  have a: "fDo_amp example_config"
    by (simp add: example_config_def)
  have b: "wvf_spet_of (detect 0 [0, 0, 5, 9, 5, 0, 7, 8, 7, 0] 1 0) = [3, 7]"
    by code_simp
  show ?thesis
    using a b
      amplitude_of_every_peak [OF a, of "[0, 0, 5, 9, 5, 0, 7, 8, 7, 0]" 0 1 0
        "\<lparr>avgspe = [0, 0, 0, 0, 0], navspes = 0, amp = []\<rparr>"]
    by (simp add: trunc_def)
qed

text \<open>
  C9 as the claim states it fails: with \<open>fLowbin = 4\<close>, the signal
  \<open>[0, 0, 5, 9, 5, 0, 0, 0]\<close> and threshold 1, the one accepted peak is at index 3. It
  fails the boundary check (\<open>3 - 4 < 0\<close>) and adds nothing to the shape histogram, but its
  value 9 is recorded as an amplitude.
\<close>

theorem amplitude_without_boundary_check:
  "outside_window (example_config\<lparr>fLowbin := 4\<rparr>) (int (length [0, 0, 5, 9, 5, 0, 0, 0 :: real])) 3
   \<and> analyze_signal (example_config\<lparr>fLowbin := 4\<rparr>) [0, 0, 5, 9, 5, 0, 0, 0] 1
        \<lparr>success = 0, failures = 0,
         channel_slot = \<lparr>avgspe = [0, 0, 0, 0, 0, 0, 0, 0], navspes = 0, amp = []\<rparr>\<rparr>
      = Inr \<lparr>success = 1, failures = 0,
             channel_slot = \<lparr>avgspe = [0, 0, 0, 0, 0, 0, 0, 0], navspes = 0, amp = [9]\<rparr>\<rparr>"
  by code_simp

subsection \<open>Normalisation\<close>

text \<open>
  The loop leaves the underflow cell and divides every other cell: by zero when the slot
  received no pulse.
\<close>

lemma normalise_loop_eq:
  "normalise_loop n ix h = take ix h @ map (\<lambda>c. divide_bin c n) (drop ix h)"
proof (induction n ix h rule: normalise_loop.induct)
  case (1 n ix h)
  show ?case
  proof (cases "ix < length h")
    case True
    define d where "d = divide_bin (h ! ix) n"
    have "normalise_loop n ix h = normalise_loop n (Suc ix) (h[ix := d])"
      using True by (simp add: normalise_loop.simps [of n ix h] SetBinContent_def GetBinContent_def d_def)
    also have "\<dots> = take (Suc ix) (h[ix := d]) @ map (\<lambda>c. divide_bin c n) (drop (Suc ix) (h[ix := d]))"
      using "1.IH" True by (simp add: SetBinContent_def GetBinContent_def d_def)
    also have "\<dots> = take ix h @ map (\<lambda>c. divide_bin c n) (drop ix h)"
      using True by (simp add: take_Suc_conv_app_nth d_def flip: Cons_nth_drop_Suc)
    finally show ?thesis .
  next
    case False
    show ?thesis
    proof (cases "ix = length h")
      case True
      then have "normalise_loop n ix h = normalise_loop n (Suc ix) h"
        by (simp add: normalise_loop.simps [of n "length h" h] SetBinContent_def)
      also have "\<dots> = h"
        using True by (simp add: normalise_loop.simps [of n "Suc (length h)" h])
      finally show ?thesis
        using True by simp
    next
      case False
      with \<open>\<not> ix < length h\<close> show ?thesis
        by (simp add: normalise_loop.simps [of n ix h])
    qed
  qed
qed

lemma normalise_slot_zero_count:
  "navspes sl = 0 \<Longrightarrow>
   normalise_slot sl = map Some (take 1 (avgspe sl)) @ replicate (length (avgspe sl) - 1) None"
  by (simp add: normalise_slot_def normalise_loop_eq divide_bin_def take_map drop_map comp_def
      map_replicate_const)

lemma normalise_slot_counted:
  "navspes sl \<noteq> 0 \<Longrightarrow>
   normalise_slot sl = map Some (take 1 (avgspe sl))
     @ map (\<lambda>x. Some (x / of_int (navspes sl))) (drop 1 (avgspe sl))"
  by (simp add: normalise_slot_def normalise_loop_eq divide_bin_def take_map drop_map comp_def)

text \<open>
  C3. The claim is that a slot whose pulse count is zero is not divided by that count.
  For a slot that received no pulse (three bins, all cells zero, \<open>navspes = 0\<close>) the
  loop of \<open>endJob\<close> divides every bin cell and the overflow cell by zero.
\<close>

theorem empty_slot_divided_by_zero:
  "normalise_slot \<lparr>avgspe = [0, 0, 0, 0, 0], navspes = 0, amp = []\<rparr>
     = [Some 0, None, None, None, None]"
  by code_simp

end
